theory Spec2Isabelle
  imports Main
begin

section \<open>Strings\<close>

text \<open>
  The program is Python 2 (it uses the \<^verbatim>\<open>print\<close> statement), so a line read from a
  file is a byte string and \<^typ>\<open>string\<close> models it exactly. The two quote characters
  are written by their codes.
\<close>

abbreviation DQ :: char where "DQ \<equiv> CHR 0x22"
abbreviation SQ :: char where "SQ \<equiv> CHR 0x27"

text \<open>\<^verbatim>\<open>s.startswith(p)\<close> and \<^verbatim>\<open>s.endswith(p)\<close>.\<close>

definition startswith :: "string \<Rightarrow> string \<Rightarrow> bool" where
  "startswith s p = (take (length p) s = p)"

definition endswith :: "string \<Rightarrow> string \<Rightarrow> bool" where
  "endswith s p = (length p \<le> length s \<and> drop (length s - length p) s = p)"

text \<open>
  \<^verbatim>\<open>s.strip()\<close> without argument removes leading and trailing whitespace; for a
  Python 2 byte string that is space, tab, line feed, vertical tab, form feed and
  carriage return.
\<close>

definition isspace :: "char \<Rightarrow> bool" where
  "isspace c = (c = CHR 0x20 \<or> c = CHR 0x09 \<or> c = CHR 0x0A \<or> c = CHR 0x0B
                \<or> c = CHR 0x0C \<or> c = CHR 0x0D)"

definition strip :: "string \<Rightarrow> string" where
  "strip s = rev (dropWhile isspace (rev (dropWhile isspace s)))"

text \<open>
  \<^verbatim>\<open>data.splitlines()\<close> on a byte string: a line ends at \<^verbatim>\<open>\n\<close>, \<^verbatim>\<open>\r\<close> or
  \<^verbatim>\<open>\r\n\<close>; the terminators are dropped and a final terminator opens no empty line.
  The second argument collects the current line in reverse.
\<close>

fun splitlines_from :: "string \<Rightarrow> string \<Rightarrow> string list" where
  "splitlines_from [] cur = (if cur = [] then [] else [rev cur])"
| "splitlines_from (c # cs) cur =
     (if c = CHR 0x0A then rev cur # splitlines_from cs []
      else if c = CHR 0x0D then
        (case cs of
           d # ds \<Rightarrow> (if d = CHR 0x0A then rev cur # splitlines_from ds []
                      else rev cur # splitlines_from cs [])
         | [] \<Rightarrow> rev cur # splitlines_from cs [])
      else splitlines_from cs (c # cur))"

definition splitlines :: "string \<Rightarrow> string list" where
  "splitlines fdata = splitlines_from fdata []"

section \<open>LocCounter\<close>

text \<open>The object: the file name and the four counters (Python integers).\<close>

record LocCounter =
  fname :: string
  nbr_loc :: int
  nbr_docstrings :: int
  nbr_comments :: int
  nbr_empty :: int

text \<open>
  The body of the \<^verbatim>\<open>for\<close> loop of \<^verbatim>\<open>LocCounter.count\<close> on one line. The loop's
  local variables \<^verbatim>\<open>docstring\<close> and \<^verbatim>\<open>docstring_char\<close> travel with the object. The
  checks are in the order of the source; each \<^verbatim>\<open>continue\<close> is the end of its branch.
  In the last \<^verbatim>\<open>else\<close> (inside a docstring) the increment belongs to the inner
  \<^verbatim>\<open>if\<close>, the \<^verbatim>\<open>continue\<close> to the \<^verbatim>\<open>else\<close>: a line that does not close the
  docstring changes nothing.
\<close>

fun count_line :: "string \<Rightarrow> bool \<times> string \<times> LocCounter \<Rightarrow> bool \<times> string \<times> LocCounter" where
  "count_line raw (docstring, docstring_char, self) =
       (let line = strip raw in
        if line = [] then
          (docstring, docstring_char, self\<lparr>nbr_empty := nbr_empty self + 1\<rparr>)
        else if startswith line ''#'' then
          (docstring, docstring_char, self\<lparr>nbr_comments := nbr_comments self + 1\<rparr>)
        else if \<not> docstring \<and> length line > 3 \<and>
                ((startswith line [DQ, DQ, DQ] \<and> endswith line [DQ, DQ, DQ]) \<or>
                 (startswith line [SQ, SQ, SQ] \<and> endswith line [SQ, SQ, SQ])) then
          (docstring, docstring_char, self\<lparr>nbr_docstrings := nbr_docstrings self + 1\<rparr>)
        else if \<not> docstring then
          (if startswith line [DQ, DQ, DQ] then
             (True, [DQ], self\<lparr>nbr_docstrings := nbr_docstrings self + 1\<rparr>)
           else if startswith line [SQ, SQ, SQ] then
             (True, [SQ], self\<lparr>nbr_docstrings := nbr_docstrings self + 1\<rparr>)
           else
             (docstring, docstring_char, self\<lparr>nbr_loc := nbr_loc self + 1\<rparr>))
        else
          (if (docstring_char = [DQ] \<and> endswith line [DQ, DQ, DQ]) \<or>
              (docstring_char = [SQ] \<and> endswith line [SQ, SQ, SQ]) then
             (False, docstring_char, self\<lparr>nbr_docstrings := nbr_docstrings self + 1\<rparr>)
           else
             (docstring, docstring_char, self)))"

text \<open>The \<^verbatim>\<open>for\<close> loop over the lines.\<close>

fun count_loop :: "string list \<Rightarrow> bool \<times> string \<times> LocCounter \<Rightarrow> bool \<times> string \<times> LocCounter" where
  "count_loop [] st = st"
| "count_loop (raw # flines) st = count_loop flines (count_line raw st)"

text \<open>
  \<^verbatim>\<open>LocCounter.count\<close>: the locals start at \<^verbatim>\<open>False\<close> and the empty string and
  are dropped at the end.
\<close>

definition LocCounter_count :: "string list \<Rightarrow> LocCounter \<Rightarrow> LocCounter" where
  "LocCounter_count flines self = snd (snd (count_loop flines (False, [], self)))"

section \<open>The file system\<close>

text \<open>
  The program reaches the file system through \<^verbatim>\<open>os.path.exists\<close>,
  \<^verbatim>\<open>os.access(_, os.R_OK)\<close>, \<^verbatim>\<open>os.path.isdir\<close>, \<^verbatim>\<open>glob.glob\<close> and
  \<^verbatim>\<open>open(_, 'r').read()\<close>. These library functions are parameters of the model;
  the file system does not change during a run. A failed \<^verbatim>\<open>open\<close> or
  \<^verbatim>\<open>read\<close> raises \<^verbatim>\<open>IOError\<close>.
\<close>

datatype error = IOError string

record filesystem =
  path_exists :: "string \<Rightarrow> bool"
  access_R_OK :: "string \<Rightarrow> bool"
  path_isdir :: "string \<Rightarrow> bool"
  glob_glob :: "string \<Rightarrow> string list"
  open_read :: "string \<Rightarrow> error + string"

text \<open>\<^verbatim>\<open>LocCounter.file_lines\<close>.\<close>

definition file_lines :: "filesystem \<Rightarrow> LocCounter \<Rightarrow> error + string list" where
  "file_lines fs self =
     (case open_read fs (fname self) of
        Inl e \<Rightarrow> Inl e
      | Inr fdata \<Rightarrow> Inr (splitlines fdata))"

text \<open>\<^verbatim>\<open>LocCounter.__init__\<close>: counting happens only for a non-empty file name.\<close>

definition LocCounter_init :: "filesystem \<Rightarrow> string \<Rightarrow> error + LocCounter" where
  "LocCounter_init fs name =
     (let self = \<lparr>fname = name, nbr_loc = 0, nbr_docstrings = 0,
                  nbr_comments = 0, nbr_empty = 0\<rparr> in
      if fname self \<noteq> [] then
        (case file_lines fs self of
           Inl e \<Rightarrow> Inl e
         | Inr flines \<Rightarrow> Inr (LocCounter_count flines self))
      else Inr self)"

section \<open>MultipleFileLocCounter\<close>

text \<open>
  \<^verbatim>\<open>optparse\<close> leaves \<^verbatim>\<open>options.recurse\<close> at \<^verbatim>\<open>None\<close> without \<^verbatim>\<open>-r\<close>; the code only
  tests whether it is true, so \<^verbatim>\<open>recurse\<close> is a \<^typ>\<open>bool\<close> with \<^verbatim>\<open>None\<close> as
  \<^term>\<open>False\<close>.
\<close>

record MultipleFileLocCounter =
  recurse :: bool
  filenames :: "string list option"
  found_files :: "string list"
  counted :: "LocCounter list"
  total_loc :: int
  total_docstrings :: int
  total_comments :: int
  total_empty :: int

definition MultipleFileLocCounter_init :: "bool \<Rightarrow> MultipleFileLocCounter" where
  "MultipleFileLocCounter_init r =
     \<lparr>recurse = r, filenames = None, found_files = [], counted = [],
      total_loc = 0, total_docstrings = 0, total_comments = 0, total_empty = 0\<rparr>"

subsection \<open>add\<close>

text \<open>
  The first statement of the loop body of \<^verbatim>\<open>add\<close>:
  \<^verbatim>\<open>if len(fname) != 2 and fname.startswith("./"): fname = fname[2:]\<close>.
\<close>

definition strip_dot_slash :: "string \<Rightarrow> string" where
  "strip_dot_slash name =
     (if length name \<noteq> 2 \<and> startswith name ''./'' then drop 2 name else name)"

text \<open>
  The listing of a directory in \<^verbatim>\<open>add\<close>: a slash is appended unless the name ends
  with one, then \<^verbatim>\<open>items = glob.glob(fname + '*')\<close>.
\<close>

definition dir_items :: "filesystem \<Rightarrow> string \<Rightarrow> string list" where
  "dir_items fs name =
     (let fname = (if \<not> endswith name ''/'' then name @ ''/'' else name) in
      glob_glob fs (fname @ ''*''))"

text \<open>The two messages of \<^verbatim>\<open>add\<close>.\<close>

definition does_not_exist :: "string \<Rightarrow> error" where
  "does_not_exist name = IOError (''Error: Dir/file '' @ [SQ] @ name @ [SQ] @ '' does not exist.'')"

definition is_inaccessible :: "string \<Rightarrow> error" where
  "is_inaccessible name = IOError (''Error: Dir/file '' @ [SQ] @ name @ [SQ] @ '' is inaccessible.'')"

text \<open>
  The \<^verbatim>\<open>for\<close> loop of \<^verbatim>\<open>add\<close> over the names, with \<^verbatim>\<open>recurse\<close> already resolved.
  The call of \<^verbatim>\<open>self.add(items, recurse, first=False)\<close> in the body is the loop over
  \<^verbatim>\<open>items\<close> after \<^verbatim>\<open>self.filenames = items\<close>. The file system may hold a cycle of
  directories (through symbolic links), on which the source recurses until the
  interpreter gives up; the first argument bounds the depth of nested calls, and
  \<^term>\<open>None\<close> is a run that needs more.
\<close>

fun add_loop :: "nat \<Rightarrow> filesystem \<Rightarrow> bool \<Rightarrow> bool \<Rightarrow> string list \<Rightarrow> MultipleFileLocCounter
                 \<Rightarrow> (error + MultipleFileLocCounter) option" where
  "add_loop n fs rec first [] self = Some (Inr self)"
| "add_loop n fs rec first (name # rest) self =
     (let fname = strip_dot_slash name in
      if \<not> path_exists fs fname then
        (if first then Some (Inl (does_not_exist fname))
         else add_loop n fs rec first rest self)
      else if \<not> access_R_OK fs fname then
        (if first then Some (Inl (is_inaccessible fname))
         else add_loop n fs rec first rest self)
      else if path_isdir fs fname then
        (let items = dir_items fs fname in
         if items \<noteq> [] \<and> (rec \<or> first) then
           (case n of
              0 \<Rightarrow> None
            | Suc m \<Rightarrow>
                (case add_loop m fs rec False items (self\<lparr>filenames := Some items\<rparr>) of
                   None \<Rightarrow> None
                 | Some (Inl e) \<Rightarrow> Some (Inl e)
                 | Some (Inr self') \<Rightarrow> add_loop n fs rec first rest self'))
         else add_loop n fs rec first rest self)
      else if endswith fname ''.py'' \<and> fname \<notin> set (found_files self) then
        add_loop n fs rec first rest (self\<lparr>found_files := found_files self @ [fname]\<rparr>)
      else add_loop n fs rec first rest self)"

text \<open>\<^verbatim>\<open>MultipleFileLocCounter.add(filenames, recurse=None, first=True)\<close>.\<close>

definition add :: "nat \<Rightarrow> filesystem \<Rightarrow> string list \<Rightarrow> bool option \<Rightarrow> bool \<Rightarrow> MultipleFileLocCounter
                 \<Rightarrow> (error + MultipleFileLocCounter) option" where
  "add n fs names recurse_arg first self =
     (let rec = (case recurse_arg of None \<Rightarrow> recurse self | Some r \<Rightarrow> r) in
      add_loop n fs rec first names (self\<lparr>filenames := Some names\<rparr>))"

subsection \<open>count\<close>

text \<open>The first loop of \<^verbatim>\<open>MultipleFileLocCounter.count\<close>: one counter per found file.\<close>

fun count_files :: "filesystem \<Rightarrow> string list \<Rightarrow> LocCounter list \<Rightarrow> error + LocCounter list" where
  "count_files fs [] cs = Inr cs"
| "count_files fs (name # rest) cs =
     (case LocCounter_init fs name of
        Inl e \<Rightarrow> Inl e
      | Inr c \<Rightarrow> count_files fs rest (cs @ [c]))"

text \<open>The second loop: the totals.\<close>

fun count_totals :: "LocCounter list \<Rightarrow> MultipleFileLocCounter \<Rightarrow> MultipleFileLocCounter" where
  "count_totals [] self = self"
| "count_totals (counter # rest) self =
     count_totals rest
       (self\<lparr>total_loc := total_loc self + nbr_loc counter,
             total_docstrings := total_docstrings self + nbr_docstrings counter,
             total_comments := total_comments self + nbr_comments counter,
             total_empty := total_empty self + nbr_empty counter\<rparr>)"

definition MultipleFileLocCounter_count :: "filesystem \<Rightarrow> MultipleFileLocCounter
                 \<Rightarrow> error + MultipleFileLocCounter" where
  "MultipleFileLocCounter_count fs self =
     (case count_files fs (found_files self) (counted self) of
        Inl e \<Rightarrow> Inl e
      | Inr cs \<Rightarrow> Inr (count_totals cs (self\<lparr>counted := cs\<rparr>)))"

text \<open>
  The counting part of \<^verbatim>\<open>main\<close>: a new object, \<^verbatim>\<open>add(filenames)\<close>, then
  \<^verbatim>\<open>count()\<close>.
\<close>

definition main_count :: "nat \<Rightarrow> filesystem \<Rightarrow> bool \<Rightarrow> string list
                 \<Rightarrow> (error + MultipleFileLocCounter) option" where
  "main_count n fs r names =
     (case add n fs names None True (MultipleFileLocCounter_init r) of
        None \<Rightarrow> None
      | Some (Inl e) \<Rightarrow> Some (Inl e)
      | Some (Inr mfloc) \<Rightarrow> Some (MultipleFileLocCounter_count fs mfloc))"

section \<open>Reference definitions and a sample file system\<close>


text \<open>Whether \<^verbatim>\<open>add\<close> raises on an entry that the caller supplied.\<close>

definition unusable :: "filesystem \<Rightarrow> string \<Rightarrow> bool" where
  "unusable fs name =
     (\<not> path_exists fs (strip_dot_slash name) \<or> \<not> access_R_OK fs (strip_dot_slash name))"

text \<open>
  A small tree for concrete runs: the directory \<^verbatim>\<open>proj\<close> holds \<^verbatim>\<open>a.py\<close>,
  \<^verbatim>\<open>notes.txt\<close>, the directory \<^verbatim>\<open>sub\<close> with \<^verbatim>\<open>b.py\<close>, and a dangling link
  \<^verbatim>\<open>gone.py\<close> that is listed but does not exist; beside it are the unreadable
  \<^verbatim>\<open>secret.py\<close> and the file \<^verbatim>\<open>README\<close>.
\<close>

definition sample_fs :: filesystem where
  "sample_fs =
     \<lparr>path_exists = (\<lambda>p. p \<in> set [''proj'', ''proj/a.py'', ''proj/notes.txt'', ''proj/sub'',
                                    ''proj/sub/b.py'', ''secret.py'', ''README'']),
      access_R_OK = (\<lambda>p. p \<in> set [''proj'', ''proj/a.py'', ''proj/notes.txt'', ''proj/sub'',
                                    ''proj/sub/b.py'', ''README'']),
      path_isdir = (\<lambda>p. p \<in> set [''proj'', ''proj/sub'']),
      glob_glob = (\<lambda>pat. if pat = ''proj/*'' then
                             [''proj/a.py'', ''proj/gone.py'', ''proj/notes.txt'', ''proj/sub'']
                           else if pat = ''proj/sub/*'' then [''proj/sub/b.py'']
                           else []),
      open_read = (\<lambda>p. if p = ''proj/a.py'' then
                           Inr (''x = 1'' @ [CHR 0x0A] @ ''# note'' @ [CHR 0x0A, CHR 0x0A]
                                @ [DQ, DQ, DQ] @ ''doc'' @ [DQ, DQ, DQ] @ [CHR 0x0A])
                         else if p = ''proj/sub/b.py'' then Inr (''y = 2'' @ [CHR 0x0A])
                         else Inl (IOError ''cannot open''))\<rparr>"


text \<open>
  A working directory that holds \<^verbatim>\<open>README\<close>, \<^verbatim>\<open>foo.py\<close> and the directory
  \<^verbatim>\<open>proj\<close> with \<^verbatim>\<open>a.py\<close>. As on a real system each of them can be named plainly,
  with \<^verbatim>\<open>./\<close> or with \<^verbatim>\<open>.//\<close> in front; nothing of these names exists in the
  root directory.
\<close>

definition cwd_names :: "string list" where
  "cwd_names = concat (map (\<lambda>x. [x, ''./'' @ x, ''.//'' @ x])
                        [''README'', ''foo.py'', ''proj'', ''proj/a.py''])"

definition cwd_fs :: filesystem where
  "cwd_fs =
     \<lparr>path_exists = (\<lambda>p. p \<in> set (''./'' # cwd_names)),
      access_R_OK = (\<lambda>p. p \<in> set (''./'' # cwd_names)),
      path_isdir = (\<lambda>p. p \<in> set [''./'', ''proj'', ''./proj'', ''.//proj'']),
      glob_glob = (\<lambda>pat. if pat = ''./*'' then [''./README'', ''./foo.py'', ''./proj'']
                           else if pat = ''proj/*'' then [''proj/a.py'']
                           else if pat = ''./proj/*'' then [''./proj/a.py'']
                           else if pat = ''.//proj/*'' then [''.//proj/a.py'']
                           else []),
      open_read = (\<lambda>p. if p \<in> set cwd_names \<and> endswith p ''.py''
                         then Inr (''pass'' @ [CHR 0x0A])
                         else Inl (IOError ''cannot open''))\<rparr>"

section \<open>Properties of the line classifier\<close>

subsection \<open>Auxiliary facts\<close>

lemma startswith_nonempty: "startswith s (c # p) \<Longrightarrow> s \<noteq> []"
  by (auto simp: startswith_def)

lemma startswith_same_head: "startswith s (c # p) \<Longrightarrow> startswith s (c' # p') \<Longrightarrow> c = c'"
  by (cases s) (auto simp: startswith_def)

lemma short_triple: "length s \<le> 3 \<Longrightarrow> startswith s [a, b, c] \<Longrightarrow> s = [a, b, c]"
  by (auto simp: startswith_def)

lemma count_line_fname: "count_line raw (d, dc, self) = (d', dc', self') \<Longrightarrow> fname self' = fname self"
  by (auto simp: Let_def split: if_splits)

lemma count_loop_fname: "count_loop flines st = st' \<Longrightarrow> fname (snd (snd st')) = fname (snd (snd st))"
proof (induction flines arbitrary: st)
  case Nil
  then show ?case by simp
next
  case (Cons raw flines)
  obtain d dc self where st: "st = (d, dc, self)" by (cases st)
  obtain d' dc' self' where cl: "count_line raw (d, dc, self) = (d', dc', self')"
    by (cases "count_line raw (d, dc, self)")
  from Cons.IH [of "count_line raw st"] Cons.prems st cl count_line_fname [OF cl]
  show ?case by simp
qed

lemma LocCounter_count_fname: "fname (LocCounter_count flines self) = fname self"
  using count_loop_fname [of flines "(False, [], self)"] by (simp add: LocCounter_count_def)

lemma bump_distinct:
  "self\<lparr>nbr_empty := nbr_empty self + 1\<rparr> \<noteq> self\<lparr>nbr_docstrings := nbr_docstrings self + 1\<rparr>"
  "self\<lparr>nbr_comments := nbr_comments self + 1\<rparr> \<noteq> self\<lparr>nbr_docstrings := nbr_docstrings self + 1\<rparr>"
  "self\<lparr>nbr_loc := nbr_loc self + 1\<rparr> \<noteq> self\<lparr>nbr_docstrings := nbr_docstrings self + 1\<rparr>"
proof -
  show "self\<lparr>nbr_empty := nbr_empty self + 1\<rparr> \<noteq> self\<lparr>nbr_docstrings := nbr_docstrings self + 1\<rparr>"
  proof
    assume "self\<lparr>nbr_empty := nbr_empty self + 1\<rparr> = self\<lparr>nbr_docstrings := nbr_docstrings self + 1\<rparr>"
    then have "nbr_empty (self\<lparr>nbr_empty := nbr_empty self + 1\<rparr>)
             = nbr_empty (self\<lparr>nbr_docstrings := nbr_docstrings self + 1\<rparr>)" by (rule arg_cong)
    then show False by simp
  qed
  show "self\<lparr>nbr_comments := nbr_comments self + 1\<rparr> \<noteq> self\<lparr>nbr_docstrings := nbr_docstrings self + 1\<rparr>"
  proof
    assume "self\<lparr>nbr_comments := nbr_comments self + 1\<rparr> = self\<lparr>nbr_docstrings := nbr_docstrings self + 1\<rparr>"
    then have "nbr_comments (self\<lparr>nbr_comments := nbr_comments self + 1\<rparr>)
             = nbr_comments (self\<lparr>nbr_docstrings := nbr_docstrings self + 1\<rparr>)" by (rule arg_cong)
    then show False by simp
  qed
  show "self\<lparr>nbr_loc := nbr_loc self + 1\<rparr> \<noteq> self\<lparr>nbr_docstrings := nbr_docstrings self + 1\<rparr>"
  proof
    assume "self\<lparr>nbr_loc := nbr_loc self + 1\<rparr> = self\<lparr>nbr_docstrings := nbr_docstrings self + 1\<rparr>"
    then have "nbr_loc (self\<lparr>nbr_loc := nbr_loc self + 1\<rparr>)
             = nbr_loc (self\<lparr>nbr_docstrings := nbr_docstrings self + 1\<rparr>)" by (rule arg_cong)
    then show False by simp
  qed
qed

text \<open>
  Inside a docstring, a line that is not blank, is not a comment and does not end
  with the delimiter of the open docstring moves no counter and leaves the state.
\<close>

lemma count_line_docstring_body:
  assumes "strip raw \<noteq> []" and "\<not> startswith (strip raw) ''#''"
    and "\<not> (dc = [DQ] \<and> endswith (strip raw) [DQ, DQ, DQ])"
    and "\<not> (dc = [SQ] \<and> endswith (strip raw) [SQ, SQ, SQ])"
  shows "count_line raw (True, dc, self) = (True, dc, self)"
  using assms by (simp add: Let_def)

subsection \<open>Lines inside a multi-line docstring\<close>

text \<open>
  Claim C1: every line consumed inside a multi-line docstring counts as a docstring
  line, so the three lines \<^verbatim>\<open>"""\<close>, \<^verbatim>\<open>body\<close>, \<^verbatim>\<open>"""\<close> give three docstring
  lines. The code counts the opening and the closing line only: the body line reaches
  the last \<^verbatim>\<open>else\<close> branch, does not close the docstring, and no counter moves.
  The result on this input is two docstring lines; in a docstring that is never
  closed only the opening line is counted.
\<close>

theorem docstring_body_line_dropped:
  "LocCounter_count [[DQ, DQ, DQ], ''body'', [DQ, DQ, DQ]]
     \<lparr>fname = ''f.py'', nbr_loc = 0, nbr_docstrings = 0, nbr_comments = 0, nbr_empty = 0\<rparr>
   = \<lparr>fname = ''f.py'', nbr_loc = 0, nbr_docstrings = 2, nbr_comments = 0, nbr_empty = 0\<rparr>
   \<and>
   LocCounter_count [''x = 1'', [DQ, DQ, DQ], ''body'', ''more'']
     \<lparr>fname = ''f.py'', nbr_loc = 0, nbr_docstrings = 0, nbr_comments = 0, nbr_empty = 0\<rparr>
   = \<lparr>fname = ''f.py'', nbr_loc = 1, nbr_docstrings = 1, nbr_comments = 0, nbr_empty = 0\<rparr>"
  by (simp add: LocCounter_count_def strip_def isspace_def startswith_def endswith_def)

text \<open>
  Claim C2: the four counters sum to the number of input lines. On the same three
  lines the counters of the code sum to two, for the same reason.
\<close>

theorem counters_sum_short:
  "(let c = LocCounter_count [[DQ, DQ, DQ], ''body'', [DQ, DQ, DQ]]
       \<lparr>fname = ''f.py'', nbr_loc = 0, nbr_docstrings = 0, nbr_comments = 0, nbr_empty = 0\<rparr>
    in nbr_loc c + nbr_docstrings c + nbr_comments c + nbr_empty c) = 2
   \<and> int (length [[DQ, DQ, DQ], ''body'', [DQ, DQ, DQ]]) = 3"
  by (simp add: LocCounter_count_def strip_def isspace_def startswith_def endswith_def)

subsection \<open>Comment lines inside a docstring\<close>

text \<open>
  Claim C3 as stated: a line starting with \<^verbatim>\<open>#\<close> that is consumed inside a
  docstring increments the docstring counter and never the comment counter. It fails:
  after the opening line \<^verbatim>\<open>"""\<close> the classifier is inside a docstring, and the
  line \<^verbatim>\<open># hi\<close> then increments the comment counter and leaves the docstring
  counter alone.
\<close>

theorem comment_in_docstring_counterexample:
  "count_loop [[DQ, DQ, DQ]] (False, [], \<lparr>fname = ''f.py'', nbr_loc = 0, nbr_docstrings = 0, nbr_comments = 0, nbr_empty = 0\<rparr>)
    = (True, [DQ], \<lparr>fname = ''f.py'', nbr_loc = 0, nbr_docstrings = 1, nbr_comments = 0, nbr_empty = 0\<rparr>)
   \<and> count_line ''# hi'' (True, [DQ], \<lparr>fname = ''f.py'', nbr_loc = 0, nbr_docstrings = 1, nbr_comments = 0, nbr_empty = 0\<rparr>)
    = (True, [DQ], \<lparr>fname = ''f.py'', nbr_loc = 0, nbr_docstrings = 1, nbr_comments = 1, nbr_empty = 0\<rparr>)"
  by (simp add: strip_def isspace_def startswith_def endswith_def)

text \<open>
  Claim C3 as amended: the comment check comes before every docstring check and does
  not look at the docstring state. A line whose trimmed text starts with \<^verbatim>\<open>#\<close>
  increments the comment counter and nothing else, inside a docstring as well as
  outside, and the docstring state stays as it was.
\<close>

theorem comment_in_docstring:
  "startswith (strip raw) ''#'' \<Longrightarrow>
   count_line raw (d, dc, self) = (d, dc, self\<lparr>nbr_comments := nbr_comments self + 1\<rparr>)"
  by (auto simp: Let_def dest: startswith_nonempty)

theorem comment_in_docstring_witness:
  "startswith (strip ''  # hi'') ''#'' \<and>
   count_line ''  # hi'' (True, [DQ], \<lparr>fname = ''f.py'', nbr_loc = 0, nbr_docstrings = 1, nbr_comments = 0, nbr_empty = 0\<rparr>)
     = (True, [DQ], \<lparr>fname = ''f.py'', nbr_loc = 0, nbr_docstrings = 1, nbr_comments = 1, nbr_empty = 0\<rparr>)"
proof -
  have h: "startswith (strip ''  # hi'') ''#''"
    by (simp add: strip_def isspace_def startswith_def)
  from comment_in_docstring [OF h, of True "[DQ]"] h show ?thesis by simp
qed

subsection \<open>Single-line docstrings and the opening of a multi-line docstring\<close>

text \<open>
  Claim C4: outside a docstring, a trimmed line of at most three characters is never
  counted as a single-line docstring (one more docstring line with the state
  unchanged); if it starts with a triple quote it is the bare delimiter and opens a
  multi-line docstring of that quote kind. A trimmed line of more than three
  characters that starts and ends with the same triple quote is counted as a
  single-line docstring and the state stays outside, although the line also starts
  with the delimiter that the later check looks for.
\<close>

theorem single_line_docstring:
  "(length (strip raw) \<le> 3 \<longrightarrow>
      count_line raw (False, dc, self)
        \<noteq> (False, dc, self\<lparr>nbr_docstrings := nbr_docstrings self + 1\<rparr>)) \<and>
   (length (strip raw) \<le> 3 \<and> startswith (strip raw) [DQ, DQ, DQ] \<longrightarrow>
      count_line raw (False, dc, self)
        = (True, [DQ], self\<lparr>nbr_docstrings := nbr_docstrings self + 1\<rparr>)) \<and>
   (length (strip raw) \<le> 3 \<and> startswith (strip raw) [SQ, SQ, SQ] \<longrightarrow>
      count_line raw (False, dc, self)
        = (True, [SQ], self\<lparr>nbr_docstrings := nbr_docstrings self + 1\<rparr>)) \<and>
   (length (strip raw) > 3 \<and>
      ((startswith (strip raw) [DQ, DQ, DQ] \<and> endswith (strip raw) [DQ, DQ, DQ]) \<or>
       (startswith (strip raw) [SQ, SQ, SQ] \<and> endswith (strip raw) [SQ, SQ, SQ])) \<longrightarrow>
      count_line raw (False, dc, self)
        = (False, dc, self\<lparr>nbr_docstrings := nbr_docstrings self + 1\<rparr>))"
proof (intro conjI impI)
  assume "length (strip raw) \<le> 3"
  show "count_line raw (False, dc, self) \<noteq> (False, dc, self\<lparr>nbr_docstrings := nbr_docstrings self + 1\<rparr>)"
    using \<open>length (strip raw) \<le> 3\<close> by (simp add: Let_def bump_distinct)
next
  assume a: "length (strip raw) \<le> 3 \<and> startswith (strip raw) [DQ, DQ, DQ]"
  then have "strip raw = [DQ, DQ, DQ]" by (simp add: short_triple)
  then show "count_line raw (False, dc, self) = (True, [DQ], self\<lparr>nbr_docstrings := nbr_docstrings self + 1\<rparr>)"
    by (simp add: startswith_def)
next
  assume a: "length (strip raw) \<le> 3 \<and> startswith (strip raw) [SQ, SQ, SQ]"
  then have "strip raw = [SQ, SQ, SQ]" by (simp add: short_triple)
  then show "count_line raw (False, dc, self) = (True, [SQ], self\<lparr>nbr_docstrings := nbr_docstrings self + 1\<rparr>)"
    by (simp add: startswith_def)
next
  assume a: "length (strip raw) > 3 \<and>
      ((startswith (strip raw) [DQ, DQ, DQ] \<and> endswith (strip raw) [DQ, DQ, DQ]) \<or>
       (startswith (strip raw) [SQ, SQ, SQ] \<and> endswith (strip raw) [SQ, SQ, SQ]))"
  then have ne: "strip raw \<noteq> []" by auto
  from a have "\<not> startswith (strip raw) ''#''"
    by (auto dest: startswith_same_head)
  with a ne show "count_line raw (False, dc, self) = (False, dc, self\<lparr>nbr_docstrings := nbr_docstrings self + 1\<rparr>)"
    by (simp add: Let_def)
qed

theorem single_line_docstring_witness:
  "count_line ([CHR 0x20, DQ, DQ, DQ, CHR 0x20]) (False, [], \<lparr>fname = ''f.py'', nbr_loc = 0, nbr_docstrings = 0, nbr_comments = 0, nbr_empty = 0\<rparr>)
     = (True, [DQ], \<lparr>fname = ''f.py'', nbr_loc = 0, nbr_docstrings = 1, nbr_comments = 0, nbr_empty = 0\<rparr>)
   \<and> count_line ([SQ, SQ, SQ] @ ''doc'' @ [SQ, SQ, SQ]) (False, [], \<lparr>fname = ''f.py'', nbr_loc = 0, nbr_docstrings = 0, nbr_comments = 0, nbr_empty = 0\<rparr>)
     = (False, [], \<lparr>fname = ''f.py'', nbr_loc = 0, nbr_docstrings = 1, nbr_comments = 0, nbr_empty = 0\<rparr>)"
  using single_line_docstring [of "[CHR 0x20, DQ, DQ, DQ, CHR 0x20]" "[]" "\<lparr>fname = ''f.py'', nbr_loc = 0, nbr_docstrings = 0, nbr_comments = 0, nbr_empty = 0\<rparr>"]
        single_line_docstring [of "[SQ, SQ, SQ] @ ''doc'' @ [SQ, SQ, SQ]" "[]" "\<lparr>fname = ''f.py'', nbr_loc = 0, nbr_docstrings = 0, nbr_comments = 0, nbr_empty = 0\<rparr>"]
  by (simp add: strip_def isspace_def startswith_def endswith_def)

section \<open>Properties of the collector\<close>

subsection \<open>One entry of the loop\<close>

text \<open>
  The equation of \<^const>\<open>add_loop\<close> for a non-empty list is large; it is taken out of
  the simplifier and replaced by one equation per branch of the source.
\<close>

declare add_loop.simps(2) [simp del]

lemma add_loop_missing:
  "\<not> path_exists fs (strip_dot_slash name) \<Longrightarrow>
   add_loop n fs rec first (name # rest) self =
     (if first then Some (Inl (does_not_exist (strip_dot_slash name)))
      else add_loop n fs rec first rest self)"
  by (simp add: add_loop.simps(2))

lemma add_loop_unreadable:
  "path_exists fs (strip_dot_slash name) \<Longrightarrow> \<not> access_R_OK fs (strip_dot_slash name) \<Longrightarrow>
   add_loop n fs rec first (name # rest) self =
     (if first then Some (Inl (is_inaccessible (strip_dot_slash name)))
      else add_loop n fs rec first rest self)"
  by (simp add: add_loop.simps(2))

lemma add_loop_skip_unusable:
  "unusable fs name \<Longrightarrow>
   add_loop n fs rec False (name # rest) self = add_loop n fs rec False rest self"
  by (cases "path_exists fs (strip_dot_slash name)")
     (simp_all add: unusable_def add_loop_missing add_loop_unreadable)

lemma add_loop_dir_skip:
  "path_exists fs (strip_dot_slash name) \<Longrightarrow> access_R_OK fs (strip_dot_slash name) \<Longrightarrow>
   path_isdir fs (strip_dot_slash name) \<Longrightarrow>
   \<not> (dir_items fs (strip_dot_slash name) \<noteq> [] \<and> (rec \<or> first)) \<Longrightarrow>
   add_loop n fs rec first (name # rest) self = add_loop n fs rec first rest self"
  by (auto simp: add_loop.simps(2) Let_def)

lemma add_loop_dir_no_fuel:
  "path_exists fs (strip_dot_slash name) \<Longrightarrow> access_R_OK fs (strip_dot_slash name) \<Longrightarrow>
   path_isdir fs (strip_dot_slash name) \<Longrightarrow>
   dir_items fs (strip_dot_slash name) \<noteq> [] \<Longrightarrow> rec \<or> first \<Longrightarrow>
   add_loop 0 fs rec first (name # rest) self = None"
  by (simp add: add_loop.simps(2) Let_def)

lemma add_loop_dir_expand:
  "path_exists fs (strip_dot_slash name) \<Longrightarrow> access_R_OK fs (strip_dot_slash name) \<Longrightarrow>
   path_isdir fs (strip_dot_slash name) \<Longrightarrow>
   dir_items fs (strip_dot_slash name) \<noteq> [] \<Longrightarrow> rec \<or> first \<Longrightarrow>
   add_loop (Suc m) fs rec first (name # rest) self =
     (case add_loop m fs rec False (dir_items fs (strip_dot_slash name))
             (self\<lparr>filenames := Some (dir_items fs (strip_dot_slash name))\<rparr>) of
        None \<Rightarrow> None
      | Some (Inl e) \<Rightarrow> Some (Inl e)
      | Some (Inr self') \<Rightarrow> add_loop (Suc m) fs rec first rest self')"
  by (simp add: add_loop.simps(2) Let_def)

lemma add_loop_file_append:
  "path_exists fs (strip_dot_slash name) \<Longrightarrow> access_R_OK fs (strip_dot_slash name) \<Longrightarrow>
   \<not> path_isdir fs (strip_dot_slash name) \<Longrightarrow>
   endswith (strip_dot_slash name) ''.py'' \<Longrightarrow>
   strip_dot_slash name \<notin> set (found_files self) \<Longrightarrow>
   add_loop n fs rec first (name # rest) self =
     add_loop n fs rec first rest
       (self\<lparr>found_files := found_files self @ [strip_dot_slash name]\<rparr>)"
  by (simp add: add_loop.simps(2))

lemma add_loop_file_skip:
  "path_exists fs (strip_dot_slash name) \<Longrightarrow> access_R_OK fs (strip_dot_slash name) \<Longrightarrow>
   \<not> path_isdir fs (strip_dot_slash name) \<Longrightarrow>
   \<not> (endswith (strip_dot_slash name) ''.py'' \<and> strip_dot_slash name \<notin> set (found_files self)) \<Longrightarrow>
   add_loop n fs rec first (name # rest) self = add_loop n fs rec first rest self"
  by (auto simp: add_loop.simps(2) Let_def)

subsection \<open>Reasoning about a whole run\<close>

text \<open>
  A property of a run relates the arguments to the result. It holds for every run
  when it holds for the empty list and is carried through each branch of the loop
  body: the two raising branches, the silent skip, a directory that is not expanded,
  a directory that is expanded (with no depth left, with an inner run that does not
  finish, raises or returns), a file that is appended and a file that is passed over.
\<close>

lemma add_loop_cases [case_names Nil Missing_first Unreadable_first Skip_discovered Dir_skip
    Dir_no_fuel Dir_inner_none Dir_inner_error Dir_inner_ok File_append File_skip]:
  assumes Nil: "\<And>n fs rec first self. P n fs rec first [] self (Some (Inr self))"
    and Missing_first: "\<And>n fs rec name rest self.
          \<not> path_exists fs (strip_dot_slash name) \<Longrightarrow>
          P n fs rec True (name # rest) self (Some (Inl (does_not_exist (strip_dot_slash name))))"
    and Unreadable_first: "\<And>n fs rec name rest self.
          path_exists fs (strip_dot_slash name) \<Longrightarrow> \<not> access_R_OK fs (strip_dot_slash name) \<Longrightarrow>
          P n fs rec True (name # rest) self (Some (Inl (is_inaccessible (strip_dot_slash name))))"
    and Skip_discovered: "\<And>n fs rec name rest self.
          unusable fs name \<Longrightarrow>
          P n fs rec False rest self (add_loop n fs rec False rest self) \<Longrightarrow>
          P n fs rec False (name # rest) self (add_loop n fs rec False rest self)"
    and Dir_skip: "\<And>n fs rec first name rest self.
          \<not> unusable fs name \<Longrightarrow> path_isdir fs (strip_dot_slash name) \<Longrightarrow>
          \<not> (dir_items fs (strip_dot_slash name) \<noteq> [] \<and> (rec \<or> first)) \<Longrightarrow>
          P n fs rec first rest self (add_loop n fs rec first rest self) \<Longrightarrow>
          P n fs rec first (name # rest) self (add_loop n fs rec first rest self)"
    and Dir_no_fuel: "\<And>fs rec first name rest self.
          \<not> unusable fs name \<Longrightarrow> path_isdir fs (strip_dot_slash name) \<Longrightarrow>
          dir_items fs (strip_dot_slash name) \<noteq> [] \<Longrightarrow> rec \<or> first \<Longrightarrow>
          P 0 fs rec first (name # rest) self None"
    and Dir_inner_none: "\<And>m fs rec first name rest self items.
          \<not> unusable fs name \<Longrightarrow> path_isdir fs (strip_dot_slash name) \<Longrightarrow>
          items = dir_items fs (strip_dot_slash name) \<Longrightarrow> items \<noteq> [] \<Longrightarrow> rec \<or> first \<Longrightarrow>
          add_loop m fs rec False items (self\<lparr>filenames := Some items\<rparr>) = None \<Longrightarrow>
          P m fs rec False items (self\<lparr>filenames := Some items\<rparr>) None \<Longrightarrow>
          P (Suc m) fs rec first (name # rest) self None"
    and Dir_inner_error: "\<And>m fs rec first name rest self items e.
          \<not> unusable fs name \<Longrightarrow> path_isdir fs (strip_dot_slash name) \<Longrightarrow>
          items = dir_items fs (strip_dot_slash name) \<Longrightarrow> items \<noteq> [] \<Longrightarrow> rec \<or> first \<Longrightarrow>
          add_loop m fs rec False items (self\<lparr>filenames := Some items\<rparr>) = Some (Inl e) \<Longrightarrow>
          P m fs rec False items (self\<lparr>filenames := Some items\<rparr>) (Some (Inl e)) \<Longrightarrow>
          P (Suc m) fs rec first (name # rest) self (Some (Inl e))"
    and Dir_inner_ok: "\<And>m fs rec first name rest self items self'.
          \<not> unusable fs name \<Longrightarrow> path_isdir fs (strip_dot_slash name) \<Longrightarrow>
          items = dir_items fs (strip_dot_slash name) \<Longrightarrow> items \<noteq> [] \<Longrightarrow> rec \<or> first \<Longrightarrow>
          add_loop m fs rec False items (self\<lparr>filenames := Some items\<rparr>) = Some (Inr self') \<Longrightarrow>
          P m fs rec False items (self\<lparr>filenames := Some items\<rparr>) (Some (Inr self')) \<Longrightarrow>
          P (Suc m) fs rec first rest self' (add_loop (Suc m) fs rec first rest self') \<Longrightarrow>
          P (Suc m) fs rec first (name # rest) self (add_loop (Suc m) fs rec first rest self')"
    and File_append: "\<And>n fs rec first name rest self.
          \<not> unusable fs name \<Longrightarrow> \<not> path_isdir fs (strip_dot_slash name) \<Longrightarrow>
          endswith (strip_dot_slash name) ''.py'' \<Longrightarrow>
          strip_dot_slash name \<notin> set (found_files self) \<Longrightarrow>
          P n fs rec first rest (self\<lparr>found_files := found_files self @ [strip_dot_slash name]\<rparr>)
            (add_loop n fs rec first rest
               (self\<lparr>found_files := found_files self @ [strip_dot_slash name]\<rparr>)) \<Longrightarrow>
          P n fs rec first (name # rest) self
            (add_loop n fs rec first rest
               (self\<lparr>found_files := found_files self @ [strip_dot_slash name]\<rparr>))"
    and File_skip: "\<And>n fs rec first name rest self.
          \<not> unusable fs name \<Longrightarrow> \<not> path_isdir fs (strip_dot_slash name) \<Longrightarrow>
          \<not> (endswith (strip_dot_slash name) ''.py''
              \<and> strip_dot_slash name \<notin> set (found_files self)) \<Longrightarrow>
          P n fs rec first rest self (add_loop n fs rec first rest self) \<Longrightarrow>
          P n fs rec first (name # rest) self (add_loop n fs rec first rest self)"
  shows "P n fs rec first names self (add_loop n fs rec first names self)"
proof (induction n fs rec first names self rule: add_loop.induct)
  case (1 n fs rec first self)
  show ?case by (simp add: Nil)
next
  case (2 n fs rec first name rest self)
  let ?p = "strip_dot_slash name"
  show ?case
  proof (cases "unusable fs name")
    case True
    show ?thesis
    proof (cases first)
      case first: True
      show ?thesis
      proof (cases "path_exists fs ?p")
        case False
        have "add_loop n fs rec first (name # rest) self = Some (Inl (does_not_exist ?p))"
          using False first by (simp add: add_loop_missing)
        then show ?thesis using first Missing_first [OF False, of n rec rest self] by simp
      next
        case ex: True
        with True have "\<not> access_R_OK fs ?p" by (simp add: unusable_def)
        then have na: "\<not> access_R_OK fs ?p" .
        have "add_loop n fs rec first (name # rest) self = Some (Inl (is_inaccessible ?p))"
          using ex na first by (simp add: add_loop_unreadable)
        then show ?thesis using first Unreadable_first [OF ex na, of n rec rest self] by simp
      qed
    next
      case nf: False
      have eq: "add_loop n fs rec first (name # rest) self = add_loop n fs rec False rest self"
        using True nf by (cases "path_exists fs ?p")
          (simp_all add: unusable_def add_loop_missing add_loop_unreadable)
      have "P n fs rec False rest self (add_loop n fs rec False rest self)"
      proof (cases "path_exists fs ?p")
        case False
        then show ?thesis using "2.IH"(1) [of ?p] nf by simp
      next
        case ex: True
        with True have "\<not> access_R_OK fs ?p" by (simp add: unusable_def)
        with ex show ?thesis using "2.IH"(2) [of ?p] nf by simp
      qed
      then show ?thesis using Skip_discovered [OF True, of n rec rest self] eq nf by simp
    qed
  next
    case usable: False
    then have ex: "path_exists fs ?p" and acc: "access_R_OK fs ?p"
      by (simp_all add: unusable_def)
    show ?thesis
    proof (cases "path_isdir fs ?p")
      case dir: True
      let ?items = "dir_items fs ?p"
      show ?thesis
      proof (cases "?items \<noteq> [] \<and> (rec \<or> first)")
        case False
        have "P n fs rec first rest self (add_loop n fs rec first rest self)"
          using "2.IH"(5) [of ?p ?items] ex acc dir False by simp
        then show ?thesis
          using Dir_skip [OF usable dir False] add_loop_dir_skip [OF ex acc dir False]
          by simp
      next
        case expand: True
        then have ne: "?items \<noteq> []" and rf: "rec \<or> first" by simp_all
        show ?thesis
        proof (cases n)
          case 0
          then show ?thesis
            using Dir_no_fuel [OF usable dir ne rf] add_loop_dir_no_fuel [OF ex acc dir ne rf]
            by simp
        next
          case (Suc m)
          have inner: "P m fs rec False ?items (self\<lparr>filenames := Some ?items\<rparr>)
                         (add_loop m fs rec False ?items (self\<lparr>filenames := Some ?items\<rparr>))"
            using "2.IH"(3) [of ?p ?items m] ex acc dir expand Suc by simp
          note step = add_loop_dir_expand [OF ex acc dir ne rf, of m rest self]
          show ?thesis
          proof (cases "add_loop m fs rec False ?items (self\<lparr>filenames := Some ?items\<rparr>)")
            case None
            then show ?thesis
              using Dir_inner_none [OF usable dir refl ne rf None] inner step Suc by simp
          next
            case (Some res)
            show ?thesis
            proof (cases res)
              case (Inl e)
              with Some have r: "add_loop m fs rec False ?items (self\<lparr>filenames := Some ?items\<rparr>)
                                  = Some (Inl e)" by simp
              then show ?thesis
                using Dir_inner_error [OF usable dir refl ne rf r] inner step Suc by simp
            next
              case (Inr self')
              with Some have r: "add_loop m fs rec False ?items (self\<lparr>filenames := Some ?items\<rparr>)
                                  = Some (Inr self')" by simp
              have "P n fs rec first rest self' (add_loop n fs rec first rest self')"
                using "2.IH"(4) [of ?p ?items m "Inr self'" self'] ex acc dir expand Suc r
                by simp
              then show ?thesis
                using Dir_inner_ok [OF usable dir refl ne rf r] inner step Suc r by simp
            qed
          qed
        qed
      qed
    next
      case nodir: False
      show ?thesis
      proof (cases "endswith ?p ''.py'' \<and> ?p \<notin> set (found_files self)")
        case True
        then have py: "endswith ?p ''.py''" and new: "?p \<notin> set (found_files self)" by simp_all
        have "P n fs rec first rest (self\<lparr>found_files := found_files self @ [?p]\<rparr>)
                (add_loop n fs rec first rest (self\<lparr>found_files := found_files self @ [?p]\<rparr>))"
          using "2.IH"(6) [of ?p] ex acc nodir True by simp
        then show ?thesis
          using File_append [OF usable nodir py new]
            add_loop_file_append [OF ex acc nodir py new] by simp
      next
        case False
        have "P n fs rec first rest self (add_loop n fs rec first rest self)"
          using "2.IH"(7) [of ?p] ex acc nodir False by simp
        then show ?thesis
          using File_skip [OF usable nodir False] add_loop_file_skip [OF ex acc nodir False]
          by simp
      qed
    qed
  qed
qed

subsection \<open>Facts about runs\<close>

text \<open>The list of found files stays free of duplicates and within \<^verbatim>\<open>.py\<close> names.\<close>

lemma add_loop_found_inv:
  "add_loop n fs rec first names self = Some (Inr self') \<Longrightarrow>
   distinct (found_files self) \<Longrightarrow> \<forall>p \<in> set (found_files self). endswith p ''.py'' \<Longrightarrow>
   distinct (found_files self') \<and> (\<forall>p \<in> set (found_files self'). endswith p ''.py'')"
proof -
  have "distinct (found_files self) \<and> (\<forall>p \<in> set (found_files self). endswith p ''.py'') \<longrightarrow>
        (case add_loop n fs rec first names self of
           Some (Inr s) \<Rightarrow> distinct (found_files s) \<and> (\<forall>p \<in> set (found_files s). endswith p ''.py'')
         | _ \<Rightarrow> True)"
    by (rule add_loop_cases [where P = "\<lambda>n fs rec first names self r.
          distinct (found_files self) \<and> (\<forall>p \<in> set (found_files self). endswith p ''.py'') \<longrightarrow>
          (case r of
             Some (Inr s) \<Rightarrow> distinct (found_files s) \<and> (\<forall>p \<in> set (found_files s). endswith p ''.py'')
           | _ \<Rightarrow> True)"])
       simp_all
  then show "add_loop n fs rec first names self = Some (Inr self') \<Longrightarrow>
   distinct (found_files self) \<Longrightarrow> \<forall>p \<in> set (found_files self). endswith p ''.py'' \<Longrightarrow>
   distinct (found_files self') \<and> (\<forall>p \<in> set (found_files self'). endswith p ''.py'')"
    by simp
qed

text \<open>\<^verbatim>\<open>add\<close> does not touch the counters, the totals or the \<^verbatim>\<open>recurse\<close> setting.\<close>

lemma add_loop_keeps_counts:
  "add_loop n fs rec first names self = Some (Inr self') \<Longrightarrow>
   counted self' = counted self \<and> total_loc self' = total_loc self
   \<and> total_docstrings self' = total_docstrings self
   \<and> total_comments self' = total_comments self \<and> total_empty self' = total_empty self
   \<and> recurse self' = recurse self"
proof -
  have "case add_loop n fs rec first names self of
          Some (Inr s) \<Rightarrow>
            counted s = counted self \<and> total_loc s = total_loc self
            \<and> total_docstrings s = total_docstrings self
            \<and> total_comments s = total_comments self \<and> total_empty s = total_empty self
            \<and> recurse s = recurse self
        | _ \<Rightarrow> True"
    by (rule add_loop_cases [where P = "\<lambda>n fs rec first names self r.
          case r of
            Some (Inr s) \<Rightarrow>
              counted s = counted self \<and> total_loc s = total_loc self
              \<and> total_docstrings s = total_docstrings self
              \<and> total_comments s = total_comments self \<and> total_empty s = total_empty self
              \<and> recurse s = recurse self
          | _ \<Rightarrow> True"])
       (simp_all split: option.splits sum.splits)
  then show "add_loop n fs rec first names self = Some (Inr self') \<Longrightarrow>
   counted self' = counted self \<and> total_loc self' = total_loc self
   \<and> total_docstrings self' = total_docstrings self
   \<and> total_comments self' = total_comments self \<and> total_empty self' = total_empty self
   \<and> recurse self' = recurse self" by simp
qed

text \<open>A run over discovered entries (\<^verbatim>\<open>first=False\<close>) never raises.\<close>

lemma add_loop_discovered_no_error:
  "add_loop n fs rec False names self \<noteq> Some (Inl e)"
proof -
  have "\<not> False \<longrightarrow> (\<forall>e. add_loop n fs rec False names self \<noteq> Some (Inl e))"
    by (rule add_loop_cases [where P = "\<lambda>n fs rec first names self r.
          \<not> first \<longrightarrow> (\<forall>e. r \<noteq> Some (Inl e))"])
       simp_all
  then show ?thesis by simp
qed




lemma add_loop_error_message:
  "add_loop n fs rec True names self = Some (Inl e) \<Longrightarrow>
   \<exists>name \<in> set names.
     (\<not> path_exists fs (strip_dot_slash name) \<and> e = does_not_exist (strip_dot_slash name)) \<or>
     (path_exists fs (strip_dot_slash name) \<and> \<not> access_R_OK fs (strip_dot_slash name)
        \<and> e = is_inaccessible (strip_dot_slash name))"
proof -
  have "True \<longrightarrow> (case add_loop n fs rec True names self of
           Some (Inl e) \<Rightarrow> \<exists>name \<in> set names.
             (\<not> path_exists fs (strip_dot_slash name) \<and> e = does_not_exist (strip_dot_slash name)) \<or>
             (path_exists fs (strip_dot_slash name) \<and> \<not> access_R_OK fs (strip_dot_slash name)
                \<and> e = is_inaccessible (strip_dot_slash name))
         | _ \<Rightarrow> True)"
    by (rule add_loop_cases [where P = "\<lambda>n fs rec first names self r.
          first \<longrightarrow> (case r of
             Some (Inl e) \<Rightarrow> \<exists>name \<in> set names.
               (\<not> path_exists fs (strip_dot_slash name) \<and> e = does_not_exist (strip_dot_slash name)) \<or>
               (path_exists fs (strip_dot_slash name) \<and> \<not> access_R_OK fs (strip_dot_slash name)
                  \<and> e = is_inaccessible (strip_dot_slash name))
           | _ \<Rightarrow> True)"])
       (auto simp: add_loop_discovered_no_error split: option.splits sum.splits)
  then show "add_loop n fs rec True names self = Some (Inl e) \<Longrightarrow>
   \<exists>name \<in> set names.
     (\<not> path_exists fs (strip_dot_slash name) \<and> e = does_not_exist (strip_dot_slash name)) \<or>
     (path_exists fs (strip_dot_slash name) \<and> \<not> access_R_OK fs (strip_dot_slash name)
        \<and> e = is_inaccessible (strip_dot_slash name))" by simp
qed

text \<open>A run that has a result keeps it when more depth is allowed.\<close>

lemma add_loop_more_fuel:
  "add_loop n fs rec first names self = Some res \<Longrightarrow>
   add_loop (n + k) fs rec first names self = Some res"
proof -
  have "add_loop n fs rec first names self \<noteq> None \<longrightarrow>
        add_loop (n + k) fs rec first names self = add_loop n fs rec first names self"
    by (rule add_loop_cases [where P = "\<lambda>n fs rec first names self r.
          r \<noteq> None \<longrightarrow> add_loop (n + k) fs rec first names self = r"])
       (auto simp: add_loop_skip_unusable unusable_def add_loop_missing add_loop_unreadable
          add_loop_dir_skip add_loop_dir_expand add_loop_file_append add_loop_file_skip)
  then show "add_loop n fs rec first names self = Some res \<Longrightarrow>
   add_loop (n + k) fs rec first names self = Some res" by simp
qed







text \<open>The per-file counters and the totals.\<close>

lemma LocCounter_init_fname: "LocCounter_init fs name = Inr c \<Longrightarrow> fname c = name"
  by (auto simp: LocCounter_init_def Let_def LocCounter_count_fname split: if_splits sum.splits)

lemma count_files_records:
  "count_files fs names cs = Inr cs' \<Longrightarrow>
   \<exists>new. cs' = cs @ new \<and> list_all2 (\<lambda>name c. LocCounter_init fs name = Inr c) names new"
proof (induction names arbitrary: cs)
  case Nil
  then show ?case by simp
next
  case (Cons name rest)
  from Cons.prems obtain c where c: "LocCounter_init fs name = Inr c"
    and run: "count_files fs rest (cs @ [c]) = Inr cs'"
    by (auto split: sum.splits)
  from Cons.IH [OF run] obtain new where "cs' = (cs @ [c]) @ new"
    and "list_all2 (\<lambda>name c. LocCounter_init fs name = Inr c) rest new" by blast
  with c have "cs' = cs @ (c # new) \<and>
      list_all2 (\<lambda>name c. LocCounter_init fs name = Inr c) (name # rest) (c # new)" by simp
  then show ?case by blast
qed

lemma count_totals_sums:
  "total_loc (count_totals cs self) = total_loc self + sum_list (map nbr_loc cs) \<and>
   total_docstrings (count_totals cs self) = total_docstrings self + sum_list (map nbr_docstrings cs) \<and>
   total_comments (count_totals cs self) = total_comments self + sum_list (map nbr_comments cs) \<and>
   total_empty (count_totals cs self) = total_empty self + sum_list (map nbr_empty cs) \<and>
   counted (count_totals cs self) = counted self \<and>
   found_files (count_totals cs self) = found_files self"
  by (induction cs arbitrary: self) simp_all

lemma records_fname:
  "list_all2 (\<lambda>name c. LocCounter_init fs name = Inr c) names cs \<Longrightarrow> map fname cs = names"
  by (induction names cs rule: list_all2_induct) (simp_all add: LocCounter_init_fname)

subsection \<open>Aggregation\<close>

text \<open>
  Claim C5: after \<^verbatim>\<open>MultipleFileLocCounter.count\<close> on an object whose list of
  counters is empty and whose totals are zero (as \<^verbatim>\<open>__init__\<close> leaves them and
  \<^verbatim>\<open>add\<close> keeps them), for any list of found files, each total is the sum of the
  corresponding counter over the per-file records, and the records are those of the
  found files, one per file and in the same order.
\<close>

theorem totals_are_sums:
  assumes "counted self = []"
    and "total_loc self = 0" and "total_docstrings self = 0"
    and "total_comments self = 0" and "total_empty self = 0"
    and "MultipleFileLocCounter_count fs self = Inr self'"
  shows "total_loc self' = sum_list (map nbr_loc (counted self')) \<and>
         total_docstrings self' = sum_list (map nbr_docstrings (counted self')) \<and>
         total_comments self' = sum_list (map nbr_comments (counted self')) \<and>
         total_empty self' = sum_list (map nbr_empty (counted self')) \<and>
         map fname (counted self') = found_files self \<and>
         list_all2 (\<lambda>name c. LocCounter_init fs name = Inr c) (found_files self) (counted self') \<and>
         found_files self' = found_files self"
proof -
  from assms(6) obtain cs where cs: "count_files fs (found_files self) (counted self) = Inr cs"
    and self': "self' = count_totals cs (self\<lparr>counted := cs\<rparr>)"
    by (auto simp: MultipleFileLocCounter_count_def split: sum.splits)
  from count_files_records [OF cs] assms(1)
  have recs: "list_all2 (\<lambda>name c. LocCounter_init fs name = Inr c) (found_files self) cs"
    by simp
  have cnt: "counted self' = cs"
    using count_totals_sums [of cs "self\<lparr>counted := cs\<rparr>"] self' by simp
  show ?thesis
    using count_totals_sums [of cs "self\<lparr>counted := cs\<rparr>"] self' cnt recs
      records_fname [OF recs] assms(2-5)
    by simp
qed

theorem totals_are_sums_witness:
  "(let self = (MultipleFileLocCounter_init True)\<lparr>found_files := [''proj/a.py'', ''proj/sub/b.py'']\<rparr>;
        self' = \<lparr>recurse = True, filenames = None,
                 found_files = [''proj/a.py'', ''proj/sub/b.py''],
                 counted = [\<lparr>fname = ''proj/a.py'', nbr_loc = 1, nbr_docstrings = 1,
                              nbr_comments = 1, nbr_empty = 1\<rparr>,
                            \<lparr>fname = ''proj/sub/b.py'', nbr_loc = 1, nbr_docstrings = 0,
                              nbr_comments = 0, nbr_empty = 0\<rparr>],
                 total_loc = 2, total_docstrings = 1, total_comments = 1, total_empty = 1\<rparr>
    in counted self = [] \<and> total_loc self = 0 \<and> total_docstrings self = 0 \<and>
       total_comments self = 0 \<and> total_empty self = 0 \<and>
       MultipleFileLocCounter_count sample_fs self = Inr self' \<and>
       total_loc self' = sum_list (map nbr_loc (counted self')) \<and>
       map fname (counted self') = found_files self)"
proof -
  let ?self = "(MultipleFileLocCounter_init True)\<lparr>found_files := [''proj/a.py'', ''proj/sub/b.py'']\<rparr>"
  let ?self' = "\<lparr>recurse = True, filenames = None,
                 found_files = [''proj/a.py'', ''proj/sub/b.py''],
                 counted = [\<lparr>fname = ''proj/a.py'', nbr_loc = 1, nbr_docstrings = 1,
                              nbr_comments = 1, nbr_empty = 1\<rparr>,
                            \<lparr>fname = ''proj/sub/b.py'', nbr_loc = 1, nbr_docstrings = 0,
                              nbr_comments = 0, nbr_empty = 0\<rparr>],
                 total_loc = 2, total_docstrings = 1, total_comments = 1, total_empty = 1\<rparr>"
  have h: "counted ?self = []" "total_loc ?self = 0" "total_docstrings ?self = 0"
    "total_comments ?self = 0" "total_empty ?self = 0"
    by (simp_all add: MultipleFileLocCounter_init_def)
  have run: "MultipleFileLocCounter_count sample_fs ?self = Inr ?self'"
    by (simp add: MultipleFileLocCounter_count_def MultipleFileLocCounter_init_def
        LocCounter_init_def file_lines_def sample_fs_def splitlines_def LocCounter_count_def
        strip_def isspace_def startswith_def endswith_def)
  from totals_are_sums [OF h run] h run show ?thesis by (simp add: Let_def)
qed

text \<open>The same for the counting part of \<^verbatim>\<open>main\<close>.\<close>

lemma main_count_totals:
  assumes "main_count n fs r names = Some (Inr m)"
  shows "total_loc m = sum_list (map nbr_loc (counted m)) \<and>
         total_docstrings m = sum_list (map nbr_docstrings (counted m)) \<and>
         total_comments m = sum_list (map nbr_comments (counted m)) \<and>
         total_empty m = sum_list (map nbr_empty (counted m)) \<and>
         map fname (counted m) = found_files m"
proof -
  let ?init = "(MultipleFileLocCounter_init r)\<lparr>filenames := Some names\<rparr>"
  from assms obtain s where
    run: "add_loop n fs r True names ?init = Some (Inr s)"
    and cnt: "MultipleFileLocCounter_count fs s = Inr m"
    by (auto simp: main_count_def add_def MultipleFileLocCounter_init_def
        split: option.splits sum.splits)
  from add_loop_keeps_counts [OF run]
  have fresh: "counted s = []" "total_loc s = 0" "total_docstrings s = 0"
    "total_comments s = 0" "total_empty s = 0"
    by (simp_all add: MultipleFileLocCounter_init_def)
  from cnt obtain cs where cs: "count_files fs (found_files s) (counted s) = Inr cs"
    and m: "m = count_totals cs (s\<lparr>counted := cs\<rparr>)"
    by (auto simp: MultipleFileLocCounter_count_def split: sum.splits)
  from count_files_records [OF cs] fresh(1)
  have recs: "list_all2 (\<lambda>name c. LocCounter_init fs name = Inr c) (found_files s) cs"
    by simp
  show ?thesis
    using count_totals_sums [of cs "s\<lparr>counted := cs\<rparr>"] m records_fname [OF recs] fresh(2-5)
    by simp
qed

subsection \<open>Errors of the collection\<close>




subsection \<open>Expansion of directories\<close>




subsection \<open>The list of found files\<close>

text \<open>
  Claim C8: \<^verbatim>\<open>add\<close> keeps the list of found files free of duplicates and within
  names that end in \<^verbatim>\<open>.py\<close>; from the empty list of a new object, every list it
  returns has both properties, also when one file is reachable from two of the
  supplied entries.
\<close>

theorem found_files_distinct_py:
  assumes "distinct (found_files self)"
    and "\<forall>p \<in> set (found_files self). endswith p ''.py''"
    and "add n fs names r first self = Some (Inr self')"
  shows "distinct (found_files self') \<and> (\<forall>p \<in> set (found_files self'). endswith p ''.py'')"
proof -
  let ?rec = "case r of None \<Rightarrow> recurse self | Some r \<Rightarrow> r"
  from assms(3) have run: "add_loop n fs ?rec first names (self\<lparr>filenames := Some names\<rparr>)
      = Some (Inr self')" by (simp add: add_def)
  show ?thesis using add_loop_found_inv [OF run] assms(1,2) by simp
qed

theorem found_files_distinct_py_witness:
  "found_files (MultipleFileLocCounter_init True) = [] \<and>
   add (Suc (Suc 0)) sample_fs [''proj'', ''./proj/a.py'', ''proj/sub''] None True
     (MultipleFileLocCounter_init True)
     = Some (Inr \<lparr>recurse = True, filenames = Some [''proj/sub/b.py''],
                  found_files = [''proj/a.py'', ''proj/sub/b.py''], counted = [],
                  total_loc = 0, total_docstrings = 0, total_comments = 0, total_empty = 0\<rparr>) \<and>
   distinct [''proj/a.py'', ''proj/sub/b.py''] \<and>
   endswith ''proj/a.py'' ''.py'' \<and> endswith ''proj/sub/b.py'' ''.py''"
proof -
  let ?s = "\<lparr>recurse = True, filenames = Some [''proj/sub/b.py''],
             found_files = [''proj/a.py'', ''proj/sub/b.py''], counted = [],
             total_loc = 0, total_docstrings = 0, total_comments = 0, total_empty = 0\<rparr>"
  have init: "distinct (found_files (MultipleFileLocCounter_init True))"
    "\<forall>p \<in> set (found_files (MultipleFileLocCounter_init True)). endswith p ''.py''"
    by (simp_all add: MultipleFileLocCounter_init_def)
  have run: "add (Suc (Suc 0)) sample_fs [''proj'', ''./proj/a.py'', ''proj/sub''] None True
               (MultipleFileLocCounter_init True) = Some (Inr ?s)"
    by (simp add: add_def add_loop.simps MultipleFileLocCounter_init_def sample_fs_def
        strip_dot_slash_def dir_items_def startswith_def endswith_def Let_def)
  from found_files_distinct_py [OF init run] run show ?thesis
    by (simp add: MultipleFileLocCounter_init_def)
qed

subsection \<open>Normalisation of an entry\<close>

text \<open>
  Claim C9: during collection an entry that starts with \<^verbatim>\<open>./\<close> loses these two
  characters if and only if its length is not two. For such an entry of another
  length the run tests the rest of the entry, names the rest in the error if it is
  missing, records the rest in the list of found files, and, unless the rest is
  stripped once more, goes on exactly as for the rest supplied in its place. Every
  other entry, and so the entry \<^verbatim>\<open>./\<close> itself, is tested, named and recorded
  unchanged.
\<close>

theorem leading_dot_slash_in_collection:
  "(startswith name ''./'' \<and> length name \<noteq> 2 \<longrightarrow>
      (\<not> path_exists fs (drop 2 name) \<longrightarrow>
         add_loop n fs rec True (name # rest) self
           = Some (Inl (IOError (''Error: Dir/file '' @ [SQ] @ drop 2 name @ [SQ]
                                  @ '' does not exist.'')))) \<and>
      (path_exists fs (drop 2 name) \<and> access_R_OK fs (drop 2 name) \<and>
       \<not> path_isdir fs (drop 2 name) \<and> endswith (drop 2 name) ''.py'' \<and>
       drop 2 name \<notin> set (found_files self) \<longrightarrow>
         add_loop n fs rec first (name # rest) self
           = add_loop n fs rec first rest
               (self\<lparr>found_files := found_files self @ [drop 2 name]\<rparr>)) \<and>
      (\<not> (startswith (drop 2 name) ''./'' \<and> length (drop 2 name) \<noteq> 2) \<longrightarrow>
         add_loop n fs rec first (name # rest) self
           = add_loop n fs rec first (drop 2 name # rest) self)) \<and>
   (\<not> (startswith name ''./'' \<and> length name \<noteq> 2) \<longrightarrow>
      (\<not> path_exists fs name \<longrightarrow>
         add_loop n fs rec True (name # rest) self
           = Some (Inl (IOError (''Error: Dir/file '' @ [SQ] @ name @ [SQ]
                                  @ '' does not exist.'')))) \<and>
      (path_exists fs name \<and> access_R_OK fs name \<and> \<not> path_isdir fs name \<and>
       endswith name ''.py'' \<and> name \<notin> set (found_files self) \<longrightarrow>
         add_loop n fs rec first (name # rest) self
           = add_loop n fs rec first rest (self\<lparr>found_files := found_files self @ [name]\<rparr>))) \<and>
   (\<not> path_exists fs ''./'' \<longrightarrow>
      add_loop n fs rec True (''./'' # rest) self
        = Some (Inl (IOError (''Error: Dir/file '' @ [SQ] @ ''./'' @ [SQ] @ '' does not exist.'')))) \<and>
   (startswith name ''./'' \<longrightarrow> (strip_dot_slash name = drop 2 name \<longleftrightarrow> length name \<noteq> 2)) \<and>
   (\<not> startswith name ''./'' \<longrightarrow> strip_dot_slash name = name) \<and>
   strip_dot_slash ''./'' = ''./''"
proof -
  have stripped: "strip_dot_slash name = drop 2 name"
    if "startswith name ''./'' \<and> length name \<noteq> 2"
    using that by (simp add: strip_dot_slash_def)
  have kept: "strip_dot_slash name = name" if "\<not> (startswith name ''./'' \<and> length name \<noteq> 2)"
    using that by (auto simp: strip_dot_slash_def)
  have again: "strip_dot_slash (drop 2 name) = drop 2 name"
    if "\<not> (startswith (drop 2 name) ''./'' \<and> length (drop 2 name) \<noteq> 2)"
    using that by (auto simp: strip_dot_slash_def)
  have dot: "strip_dot_slash ''./'' = ''./''" by (simp add: strip_dot_slash_def)
  have c1: "add_loop n fs rec True (name # rest) self
           = Some (Inl (IOError (''Error: Dir/file '' @ [SQ] @ drop 2 name @ [SQ]
                                  @ '' does not exist.'')))"
    if "startswith name ''./'' \<and> length name \<noteq> 2" "\<not> path_exists fs (drop 2 name)"
    using that stripped by (simp add: add_loop_missing does_not_exist_def)
  have c2: "add_loop n fs rec first (name # rest) self
           = add_loop n fs rec first rest
               (self\<lparr>found_files := found_files self @ [drop 2 name]\<rparr>)"
    if "startswith name ''./'' \<and> length name \<noteq> 2"
      "path_exists fs (drop 2 name) \<and> access_R_OK fs (drop 2 name) \<and>
       \<not> path_isdir fs (drop 2 name) \<and> endswith (drop 2 name) ''.py'' \<and>
       drop 2 name \<notin> set (found_files self)"
    using that stripped by (simp add: add_loop_file_append)
  have c3: "add_loop n fs rec first (name # rest) self
           = add_loop n fs rec first (drop 2 name # rest) self"
    if "startswith name ''./'' \<and> length name \<noteq> 2"
      "\<not> (startswith (drop 2 name) ''./'' \<and> length (drop 2 name) \<noteq> 2)"
    using stripped [OF that(1)] again [OF that(2)] by (simp add: add_loop.simps(2))
  have c4: "add_loop n fs rec True (name # rest) self
           = Some (Inl (IOError (''Error: Dir/file '' @ [SQ] @ name @ [SQ]
                                  @ '' does not exist.'')))"
    if "\<not> (startswith name ''./'' \<and> length name \<noteq> 2)" "\<not> path_exists fs name"
    using that kept by (simp add: add_loop_missing does_not_exist_def)
  have c5: "add_loop n fs rec first (name # rest) self
           = add_loop n fs rec first rest (self\<lparr>found_files := found_files self @ [name]\<rparr>)"
    if "\<not> (startswith name ''./'' \<and> length name \<noteq> 2)"
      "path_exists fs name \<and> access_R_OK fs name \<and> \<not> path_isdir fs name \<and>
       endswith name ''.py'' \<and> name \<notin> set (found_files self)"
    using that kept by (simp add: add_loop_file_append)
  have c6: "add_loop n fs rec True (''./'' # rest) self
        = Some (Inl (IOError (''Error: Dir/file '' @ [SQ] @ ''./'' @ [SQ] @ '' does not exist.'')))"
    if "\<not> path_exists fs ''./''"
    using that dot by (simp add: add_loop_missing does_not_exist_def)
  have g1: "strip_dot_slash name = drop 2 name \<longleftrightarrow> length name \<noteq> 2" if "startswith name ''./''"
    using that by (auto simp: strip_dot_slash_def startswith_def)
  have g2: "strip_dot_slash name = name" if "\<not> startswith name ''./''"
    using that by (simp add: strip_dot_slash_def)
  from c1 c2 c3 c4 c5 c6 g1 g2 dot show ?thesis by blast
qed

theorem leading_dot_slash_in_collection_witness:
  "startswith ''./foo.py'' ''./'' \<and> length ''./foo.py'' \<noteq> 2 \<and>
   add_loop 0 cwd_fs False True [''./foo.py''] (MultipleFileLocCounter_init False)
     = Some (Inr ((MultipleFileLocCounter_init False)\<lparr>found_files := [''foo.py'']\<rparr>)) \<and>
   add_loop 0 cwd_fs False True [''./foo.py''] (MultipleFileLocCounter_init False)
     = add_loop 0 cwd_fs False True [''foo.py''] (MultipleFileLocCounter_init False) \<and>
   add_loop 0 cwd_fs False True [''./bar.py''] (MultipleFileLocCounter_init False)
     = Some (Inl (IOError (''Error: Dir/file '' @ [SQ] @ ''bar.py'' @ [SQ] @ '' does not exist.''))) \<and>
   path_exists sample_fs ''./'' = False \<and>
   add_loop 0 sample_fs False True [''./''] (MultipleFileLocCounter_init False)
     = Some (Inl (IOError (''Error: Dir/file '' @ [SQ] @ ''./'' @ [SQ] @ '' does not exist.'')))"
proof -
  let ?init = "MultipleFileLocCounter_init False"
  have h: "startswith ''./foo.py'' ''./'' \<and> length ''./foo.py'' \<noteq> 2"
    "startswith ''./bar.py'' ''./'' \<and> length ''./bar.py'' \<noteq> 2"
    by (simp_all add: startswith_def)
  have f: "path_exists cwd_fs (drop 2 ''./foo.py'') \<and> access_R_OK cwd_fs (drop 2 ''./foo.py'') \<and>
       \<not> path_isdir cwd_fs (drop 2 ''./foo.py'') \<and> endswith (drop 2 ''./foo.py'') ''.py'' \<and>
       drop 2 ''./foo.py'' \<notin> set (found_files ?init)"
    by (simp add: cwd_fs_def cwd_names_def endswith_def MultipleFileLocCounter_init_def)
  have once: "\<not> (startswith (drop 2 ''./foo.py'') ''./'' \<and> length (drop 2 ''./foo.py'') \<noteq> 2)"
    by (simp add: startswith_def)
  have b: "\<not> path_exists cwd_fs (drop 2 ''./bar.py'')"
    by (simp add: cwd_fs_def cwd_names_def)
  have d: "\<not> path_exists sample_fs ''./''" by (simp add: sample_fs_def)
  note thm1 = leading_dot_slash_in_collection [where name = "''./foo.py''" and fs = cwd_fs
      and n = 0 and rec = False and first = True and rest = "[]" and self = ?init]
  note thm2 = leading_dot_slash_in_collection [where name = "''./bar.py''" and fs = cwd_fs
      and n = 0 and rec = False and first = True and rest = "[]" and self = ?init]
  note thm3 = leading_dot_slash_in_collection [where name = "''x''" and fs = sample_fs
      and n = 0 and rec = False and first = True and rest = "[]" and self = ?init]
  have r1: "add_loop 0 cwd_fs False True [''./foo.py''] ?init
     = Some (Inr (?init\<lparr>found_files := [''foo.py'']\<rparr>))"
    using thm1 h(1) f by (simp add: MultipleFileLocCounter_init_def)
  have r2: "add_loop 0 cwd_fs False True [''./foo.py''] ?init
     = add_loop 0 cwd_fs False True [''foo.py''] ?init"
    using thm1 h(1) once by simp
  have r3: "add_loop 0 cwd_fs False True [''./bar.py''] ?init
     = Some (Inl (IOError (''Error: Dir/file '' @ [SQ] @ ''bar.py'' @ [SQ] @ '' does not exist.'')))"
    using thm2 h(2) b by simp
  have r4: "add_loop 0 sample_fs False True [''./''] ?init
     = Some (Inl (IOError (''Error: Dir/file '' @ [SQ] @ ''./'' @ [SQ] @ '' does not exist.'')))"
    using thm3 d by simp
  from h(1) r1 r2 r3 d r4 show ?thesis by simp
qed

subsection \<open>Supplied files of another kind\<close>




end
